theory Spec2Isabelle
  imports Complex_Main "HOL-Library.Sublist" "HOL-Library.Word"
begin

section \<open>JavaScript values\<close>

text \<open>
  A JavaScript number is NaN, an infinity or a finite value. \<open>Math.min\<close>, \<open>Math.max\<close> and
  the comparisons used by the service never round, so a finite number is modelled by its
  real value (the two zeros are identified; the service never divides by them).
\<close>

datatype jsnum = NaN | NegInf | Fin real | PosInf

text \<open>The values a parsed JSON body or an omitted argument can hold.\<close>

datatype jsval =
    JUndefined
  | JNull
  | JBool bool
  | JNum jsnum
  | JStr string
  | JArr "jsval list"
  | JObj "(string \<times> jsval) list"

text \<open>
  Four operations of the language itself are parameters of the model, since their exact
  results depend on the rounding of decimal text to doubles and on the printing of doubles:
  \<open>StringToNumber\<close> is the conversion of a string to a number, \<open>ObjectToString\<close> is the
  primitive (a string) that a plain array or object converts to, \<open>JSON_stringify\<close> is
  \<open>JSON.stringify\<close>, and \<open>IntToDouble\<close> is the double nearest to a mathematical integer
  (\<open>None\<close> when the integer is out of the doubles' range, where the language gives an
  infinity).
\<close>

record js_builtins =
  StringToNumber :: "string \<Rightarrow> jsnum"
  ObjectToString :: "jsval \<Rightarrow> string"
  JSON_stringify :: "jsval \<Rightarrow> jsval"
  IntToDouble :: "int \<Rightarrow> real option"

fun ToNumber :: "js_builtins \<Rightarrow> jsval \<Rightarrow> jsnum" where
  "ToNumber bi JUndefined = NaN"
| "ToNumber bi JNull = Fin 0"
| "ToNumber bi (JBool b) = (if b then Fin 1 else Fin 0)"
| "ToNumber bi (JNum n) = n"
| "ToNumber bi (JStr s) = StringToNumber bi s"
| "ToNumber bi (JArr xs) = StringToNumber bi (ObjectToString bi (JArr xs))"
| "ToNumber bi (JObj fs) = StringToNumber bi (ObjectToString bi (JObj fs))"

text \<open>Truthiness, as tested by \<open>if (v)\<close> and \<open>!v\<close>.\<close>

fun truthy :: "jsval \<Rightarrow> bool" where
  "truthy JUndefined = False"
| "truthy JNull = False"
| "truthy (JBool b) = b"
| "truthy (JNum n) = (n \<noteq> NaN \<and> n \<noteq> Fin 0)"
| "truthy (JStr s) = (s \<noteq> [])"
| "truthy (JArr xs) = True"
| "truthy (JObj fs) = True"

text \<open>
  \<open>v == true\<close>: a boolean is compared as such; otherwise \<open>true\<close> becomes the number 1,
  a number is compared with it, a string is converted to a number first, an array or
  object is converted to its primitive string first, and \<open>undefined\<close> and \<open>null\<close> equal
  neither.
\<close>

fun loose_eq_true :: "js_builtins \<Rightarrow> jsval \<Rightarrow> bool" where
  "loose_eq_true bi JUndefined = False"
| "loose_eq_true bi JNull = False"
| "loose_eq_true bi (JBool b) = b"
| "loose_eq_true bi (JNum n) = (n = Fin 1)"
| "loose_eq_true bi (JStr s) = (StringToNumber bi s = Fin 1)"
| "loose_eq_true bi (JArr xs) = (StringToNumber bi (ObjectToString bi (JArr xs)) = Fin 1)"
| "loose_eq_true bi (JObj fs) = (StringToNumber bi (ObjectToString bi (JObj fs)) = Fin 1)"

text \<open>The strict order of two numbers; nothing is below or above NaN.\<close>

fun js_less :: "jsnum \<Rightarrow> jsnum \<Rightarrow> bool" where
  "js_less NaN b = False"
| "js_less a NaN = False"
| "js_less NegInf NegInf = False"
| "js_less NegInf b = True"
| "js_less (Fin x) NegInf = False"
| "js_less (Fin x) (Fin y) = (x < y)"
| "js_less (Fin x) PosInf = True"
| "js_less PosInf b = False"

text \<open>\<open>Math.min\<close> and \<open>Math.max\<close> of two numbers: NaN as soon as one argument is NaN.\<close>

definition Math_min :: "jsnum \<Rightarrow> jsnum \<Rightarrow> jsnum" where
  "Math_min a b = (if a = NaN \<or> b = NaN then NaN else if js_less b a then b else a)"

definition Math_max :: "jsnum \<Rightarrow> jsnum \<Rightarrow> jsnum" where
  "Math_max a b = (if a = NaN \<or> b = NaN then NaN else if js_less a b then b else a)"

text \<open>A number lies in the closed interval from \<open>lo\<close> to \<open>hi\<close>.\<close>

fun in_range :: "real \<Rightarrow> real \<Rightarrow> jsnum \<Rightarrow> bool" where
  "in_range lo hi (Fin x) = (lo \<le> x \<and> x \<le> hi)"
| "in_range lo hi n = False"

section \<open>The compression adapter (compressutil.js)\<close>

type_synonym buffer = "8 word list"

datatype js_error = Error string | TypeError string

text \<open>A default parameter value replaces \<open>undefined\<close> only.\<close>

definition default_param :: "jsval \<Rightarrow> jsval \<Rightarrow> jsval" where
  "default_param d v = (if v = JUndefined then d else v)"

text \<open>The first two statements of \<open>compressPdfBuffer\<close>: the values of \<open>dpi\<close> and
  \<open>jpegQuality\<close> that the rest of the function uses.\<close>

definition used_dpi :: "js_builtins \<Rightarrow> jsval \<Rightarrow> jsnum" where
  "used_dpi bi dpi =
     Math_max (Fin 10) (Math_min (Fin 600) (ToNumber bi (default_param (JNum (Fin 150)) dpi)))"

definition used_jpegQuality :: "js_builtins \<Rightarrow> jsval \<Rightarrow> jsnum" where
  "used_jpegQuality bi jpegQuality =
     Math_max (Fin 1) (Math_min (Fin 100) (ToNumber bi (default_param (JNum (Fin 95)) jpegQuality)))"

text \<open>An argument of the subprocess: a literal, or a template with a number printed at
  its end.\<close>

datatype gs_arg = Lit string | Tmpl string jsnum

definition gs_args :: "jsnum \<Rightarrow> jsnum \<Rightarrow> gs_arg list" where
  "gs_args dpi jpegQuality =
     [Lit ''-q'',
      Lit ''-dSAFER'',
      Lit ''-sDEVICE=pdfwrite'',
      Lit ''-dDetectDuplicateImages=true'',
      Lit ''-dCompatibilityLevel=1.4'',
      Lit ''-dEmbedAllFonts=true'',
      Lit ''-dSubsetFonts=true'',
      Lit ''-dColorImageDownsampleType=/Bicubic'',
      Lit ''-dGrayImageDownsampleType=/Bicubic'',
      Lit ''-dMonoImageDownsampleType=/Bicubic'',
      Lit ''-dDownsampleColorImages=true'',
      Lit ''-dDownsampleGrayImages=true'',
      Lit ''-dDownsampleMonoImages=true'',
      Tmpl ''-dColorImageResolution='' dpi,
      Tmpl ''-dGrayImageResolution='' dpi,
      Tmpl ''-dMonoImageResolution='' dpi,
      Tmpl ''-dJPEGQuality='' jpegQuality,
      Lit ''-dNOPAUSE'',
      Lit ''-dBATCH'',
      Lit ''-sOutputFile=-'',
      Lit ''-'']"

subsection \<open>Printing an exit code\<close>

text \<open>The decimal text of an integer, as a template literal prints an exit code;
  \<open>null\<close> (the process was ended by a signal) prints as such.\<close>

fun show_nat :: "nat \<Rightarrow> string" where
  "show_nat n =
     (if n < 10 then [char_of (48 + n)] else show_nat (n div 10) @ [char_of (48 + n mod 10)])"

definition show_int :: "int \<Rightarrow> string" where
  "show_int i = (if i < 0 then CHR ''-'' # show_nat (nat (- i)) else show_nat (nat i))"

definition show_exit_code :: "int option \<Rightarrow> string" where
  "show_exit_code c = (case c of None \<Rightarrow> ''null'' | Some i \<Rightarrow> show_int i)"

subsection \<open>The subprocess and the promise around it\<close>

text \<open>What the subprocess does, as the events of the process and of its three
  streams, in arrival order: data on the standard output, data on the standard error, an
  error of the process, its close, and an error of the stream to its standard input (a
  write that fails, as when the subprocess ends before it has read what is written).\<close>

datatype proc_event =
    StdoutData buffer
  | StderrData string
  | ErrorEvent string
  | CloseEvent "int option"
  | StdinError string

text \<open>The array \<open>outputChunks\<close>, the state of the promise (\<open>resolve\<close> and \<open>reject\<close>
  have an effect on a promise that is not settled yet only), and whether the server
  process has ended.\<close>

record gs_state =
  outputChunks :: "buffer list"
  settled :: "(js_error + buffer) option"
  died :: bool

definition settle :: "gs_state \<Rightarrow> js_error + buffer \<Rightarrow> gs_state" where
  "settle s r = (if settled s = None then s\<lparr>settled := Some r\<rparr> else s)"

definition exit_message :: "int option \<Rightarrow> string" where
  "exit_message exitCode =
     ''Ghostscript process exited with code '' @ show_exit_code exitCode
       @ ''. Check the input PDF or Ghostscript configuration.''"

fun gs_handle :: "gs_state \<Rightarrow> proc_event \<Rightarrow> gs_state" where
  "gs_handle s (StdoutData chunk) = s\<lparr>outputChunks := outputChunks s @ [chunk]\<rparr>"
| "gs_handle s (StderrData errorData) = s"
| "gs_handle s (ErrorEvent message) =
     settle s (Inl (Error (''Failed to execute Ghostscript: '' @ message)))"
| "gs_handle s (CloseEvent exitCode) =
     (if exitCode = Some 0 then settle s (Inr (concat (outputChunks s)))
      else settle s (Inl (Error (exit_message exitCode))))"
| "gs_handle s (StdinError message) = s\<lparr>died := True\<rparr>"

text \<open>The function registers listeners on the standard output, on the standard error
  and on the process, and none on the stream to the standard input. An error event
  without a listener is an uncaught exception, which ends the server process: no handler
  runs after it, and what the request was waiting for never comes. That stream is closed
  before the process reports its close, so a failed write comes before the close event;
  it can follow an error event of the process, and then the process ends while the
  caller is still handling the rejection.\<close>

definition gs_step :: "gs_state \<Rightarrow> proc_event \<Rightarrow> gs_state" where
  "gs_step s ev = (if died s then s else gs_handle s ev)"

definition gs_init :: gs_state where
  "gs_init = \<lparr>outputChunks = [], settled = None, died = False\<rparr>"

definition gs_run :: "proc_event list \<Rightarrow> gs_state" where
  "gs_run evs = foldl gs_step gs_init evs"

text \<open>An event that carries data and does not settle the promise; the text written
  to the standard error; the chunks of the standard output, in arrival order.\<close>

fun is_data :: "proc_event \<Rightarrow> bool" where
  "is_data (StdoutData chunk) = True"
| "is_data (StderrData errorData) = True"
| "is_data ev = False"

fun is_stderr :: "proc_event \<Rightarrow> bool" where
  "is_stderr (StderrData errorData) = True"
| "is_stderr ev = False"

fun is_stdin_error :: "proc_event \<Rightarrow> bool" where
  "is_stdin_error (StdinError message) = True"
| "is_stdin_error ev = False"

text \<open>No write to the standard input of the subprocess fails.\<close>

definition stdin_ok :: "proc_event list \<Rightarrow> bool" where
  "stdin_ok evs = (filter is_stdin_error evs = [])"

fun stdout_chunks :: "proc_event list \<Rightarrow> buffer list" where
  "stdout_chunks [] = []"
| "stdout_chunks (StdoutData chunk # evs) = chunk # stdout_chunks evs"
| "stdout_chunks (ev # evs) = stdout_chunks evs"

section \<open>Effects\<close>

text \<open>An interception rule, and the options of the PDF step.\<close>

record rule =
  apiUrl :: string
  apiBody :: jsval

record pdf_options =
  compression :: jsval
  dpi :: jsval
  quality :: jsval

text \<open>The calls a request makes on the browser page and on the subprocess, in order.
  Telemetry and console output are left out: they decide nothing.\<close>

datatype event =
    NewPage
  | SetCookie "jsval list"
  | SetRequestInterception bool
  | OnRequest "rule list"
  | WaitForSelector jsval
  | Goto jsval jsval "string list"
  | PagePdf bool string bool jsval
  | Spawn string "gs_arg list"
  | StdinWrite buffer
  | StdinEnd
  | ClosePage

text \<open>The outcome of an awaited call: it resolves, it rejects, it stays pending for
  ever, or the server process ends while the call is awaited. A computation leaves a
  trace of events; after the end of the process the trace records nothing more.\<close>

datatype 'a promise = Resolved 'a | Rejected js_error | Pending | Crashed

text \<open>The call returns a value or throws an error.\<close>

fun completes :: "'a promise \<Rightarrow> bool" where
  "completes (Resolved a) = True"
| "completes (Rejected err) = True"
| "completes Pending = False"
| "completes Crashed = False"

type_synonym 'a eff = "'a promise \<times> event list"

definition bind_eff :: "'a eff \<Rightarrow> ('a \<Rightarrow> 'b eff) \<Rightarrow> 'b eff" where
  "bind_eff m f =
     (case m of
        (Resolved a, t) \<Rightarrow> (case f a of (r, t') \<Rightarrow> (r, t @ t'))
      | (Rejected e, t) \<Rightarrow> (Rejected e, t)
      | (Pending, t) \<Rightarrow> (Pending, t)
      | (Crashed, t) \<Rightarrow> (Crashed, t))"

definition call :: "event \<Rightarrow> js_error option \<Rightarrow> unit eff" where
  "call ev res = (case res of None \<Rightarrow> (Resolved (), [ev]) | Some e \<Rightarrow> (Rejected e, [ev]))"

text \<open>What the world outside does in one request: the outcome of each call on the
  page (the n-th call of \<open>page.close\<close> has its own, counted from 0), whether \<open>spawn\<close>
  throws, and the events of the subprocess.\<close>

record env =
  newPage_res :: "js_error option"
  setCookie_res :: "js_error option"
  setRequestInterception_res :: "js_error option"
  waitForSelector_res :: "js_error option"
  goto_res :: "js_error option"
  pdf_res :: "js_error + buffer"
  spawn_res :: "js_error option"
  gs_events :: "proc_event list"
  close_res :: "nat \<Rightarrow> js_error option"

subsection \<open>compressPdfBuffer\<close>

text \<open>The values are clamped, the arguments built and the subprocess started; the
  buffer is written to its standard input, which is then ended; the promise is settled
  by the handlers, unless a write to the standard input fails, which ends the server
  process: the caller then gets neither a buffer nor an error. An error thrown by \<open>spawn\<close>
  rejects the promise, and the \<open>catch\<close> block throws it again. The conversion of
  \<open>pdfBuffer\<close> to a \<open>Buffer\<close> keeps its bytes.\<close>

definition gs_outcome :: "gs_state \<Rightarrow> buffer promise" where
  "gs_outcome s =
     (if died s then Crashed
      else case settled s of
             None \<Rightarrow> Pending
           | Some (Inl err) \<Rightarrow> Rejected err
           | Some (Inr out) \<Rightarrow> Resolved out)"

definition compressPdfBuffer :: "js_builtins \<Rightarrow> env \<Rightarrow> buffer \<Rightarrow> jsval \<Rightarrow> jsval \<Rightarrow> buffer eff" where
  "compressPdfBuffer bi e pdfBuffer d q =
     (let d' = used_dpi bi d;
          q' = used_jpegQuality bi q;
          args = gs_args d' q'
      in case spawn_res e of
           Some err \<Rightarrow> (Rejected err, [Spawn ''gs'' args])
         | None \<Rightarrow>
             (gs_outcome (gs_run (gs_events e)),
              [Spawn ''gs'' args, StdinWrite pdfBuffer, StdinEnd]))"

section \<open>The render engine adapter (generator.js)\<close>

subsection \<open>String searches\<close>

text \<open>A character of a \<open>string\<close> stands for a UTF-16 code unit below 256.\<close>

text \<open>\<open>s.includes(sub)\<close>: \<open>sub\<close> begins at some position of \<open>s\<close>.\<close>

fun includes_str :: "string \<Rightarrow> string \<Rightarrow> bool" where
  "includes_str [] sub = (sub = [])"
| "includes_str (c # cs) sub = (prefix sub (c # cs) \<or> includes_str cs sub)"

text \<open>\<open>s.indexOf(sub)\<close>: the first position where \<open>sub\<close> begins, or -1.\<close>

fun indexOf_from :: "int \<Rightarrow> string \<Rightarrow> string \<Rightarrow> int" where
  "indexOf_from i [] sub = (if sub = [] then i else - 1)"
| "indexOf_from i (c # cs) sub =
     (if prefix sub (c # cs) then i else indexOf_from (i + 1) cs sub)"

definition indexOf :: "string \<Rightarrow> string \<Rightarrow> int" where
  "indexOf s sub = indexOf_from 0 s sub"

text \<open>\<open>xs.indexOf(s)\<close> on an array, for a string \<open>s\<close>: the first position of an element
  strictly equal to it, or -1.\<close>

fun array_indexOf_from :: "int \<Rightarrow> jsval list \<Rightarrow> string \<Rightarrow> int" where
  "array_indexOf_from i [] s = - 1"
| "array_indexOf_from i (x # xs) s =
     (if x = JStr s then i else array_indexOf_from (i + 1) xs s)"

subsection \<open>The request handler\<close>

text \<open>What the handler registered with \<open>page.on('request', ...)\<close> does with one
  request: nothing when the request was handled already, a response, or \<open>continue\<close>.\<close>

datatype action = NoAction | Respond nat string jsval | Continue

definition on_request :: "js_builtins \<Rightarrow> rule list \<Rightarrow> bool \<Rightarrow> string \<Rightarrow> action" where
  "on_request bi requests isInterceptResolutionHandled interceptedUrl =
     (if isInterceptResolutionHandled then NoAction
      else case find (\<lambda>r. includes_str interceptedUrl (apiUrl r)) requests of
             Some match \<Rightarrow>
               Respond 200 ''application/json; charset=utf-8'' (JSON_stringify bi (apiBody match))
           | None \<Rightarrow> Continue)"

subsection \<open>generatePdf\<close>

text \<open>The statement \<open>if (url.indexOf('http') !== 0) url = `http://${url}`\<close>. A string
  and an array have an \<open>indexOf\<close>; on any other value the call throws a \<open>TypeError\<close>
  (its message is the engine's and depends on the value).\<close>

fun normalize_url :: "js_builtins \<Rightarrow> jsval \<Rightarrow> jsval eff" where
  "normalize_url bi (JStr s) =
     (if indexOf s ''http'' \<noteq> 0 then (Resolved (JStr (''http://'' @ s)), [])
      else (Resolved (JStr s), []))"
| "normalize_url bi (JArr xs) =
     (if array_indexOf_from 0 xs ''http'' \<noteq> 0
      then (Resolved (JStr (''http://'' @ ObjectToString bi (JArr xs))), [])
      else (Resolved (JArr xs), []))"
| "normalize_url bi v = (Rejected (TypeError ''url.indexOf is not a function''), [])"

text \<open>The last statements of the \<open>try\<close> block: the page is closed, then the buffer
  returned.\<close>

definition close_and_return :: "env \<Rightarrow> buffer \<Rightarrow> buffer eff" where
  "close_and_return e buf =
     bind_eff (call ClosePage (close_res e 0)) (\<lambda>_. (Resolved buf, []))"

text \<open>The first two statements of the \<open>try\<close> block: the cookies are set when
  \<open>cookies\<close> is truthy, and interception is switched on and the handler registered
  when \<open>requests\<close> has a length other than 0. \<open>requests\<close> and \<open>cookies\<close> are \<open>None\<close> for
  \<open>null\<close> or \<open>undefined\<close> and an array otherwise.\<close>

definition prepare_page :: "env \<Rightarrow> rule list option \<Rightarrow> jsval list option \<Rightarrow> unit eff" where
  "prepare_page e requests cookies =
     bind_eff
       (case cookies of
          None \<Rightarrow> (Resolved (), [])
        | Some cs \<Rightarrow> call (SetCookie cs) (setCookie_res e)) (\<lambda>_.
       case requests of
         None \<Rightarrow> (Resolved (), [])
       | Some [] \<Rightarrow> (Resolved (), [])
       | Some (r # rs) \<Rightarrow>
           bind_eff (call (SetRequestInterception True) (setRequestInterception_res e))
             (\<lambda>_. (Resolved (), [OnRequest (r # rs)])))"

text \<open>The \<open>try\<close> block up to the rendered buffer: the page is prepared, the URL
  normalized, the selector waited for, the URL navigated to and \<open>page.pdf\<close> called.\<close>

definition render_steps ::
  "js_builtins \<Rightarrow> env \<Rightarrow> jsval \<Rightarrow> jsval \<Rightarrow> rule list option \<Rightarrow> jsval list option \<Rightarrow> jsval
     \<Rightarrow> buffer eff" where
  "render_steps bi e url timeout requests cookies waitForSelector =
     bind_eff (prepare_page e requests cookies) (\<lambda>_.
     bind_eff (normalize_url bi url) (\<lambda>url'.
     bind_eff (call (WaitForSelector waitForSelector) (waitForSelector_res e)) (\<lambda>_.
     bind_eff
       (call (Goto url' timeout [''networkidle0'', ''domcontentloaded'']) (goto_res e)) (\<lambda>_.
       case pdf_res e of
         Inl err \<Rightarrow> (Rejected err, [PagePdf True ''A4'' False timeout])
       | Inr buf \<Rightarrow> (Resolved buf, [PagePdf True ''A4'' False timeout])))))"

text \<open>The end of the \<open>try\<close> block: the rendered buffer goes through the compression
  adapter or not, and the page is closed. \<open>pdfOptions\<close> is \<open>None\<close> for \<open>null\<close> or
  \<open>undefined\<close>.\<close>

definition finish_steps :: "js_builtins \<Rightarrow> env \<Rightarrow> pdf_options option \<Rightarrow> buffer \<Rightarrow> buffer eff" where
  "finish_steps bi e pdfOptions pdfBuffer =
     (case pdfOptions of
        None \<Rightarrow> close_and_return e pdfBuffer
      | Some opts \<Rightarrow>
          if loose_eq_true bi (compression opts)
          then bind_eff (compressPdfBuffer bi e pdfBuffer (dpi opts) (quality opts))
                 (\<lambda>compressedPdfBuffer. close_and_return e compressedPdfBuffer)
          else close_and_return e pdfBuffer)"

text \<open>The body of the \<open>try\<close> block.\<close>

definition try_body ::
  "js_builtins \<Rightarrow> env \<Rightarrow> jsval \<Rightarrow> jsval \<Rightarrow> rule list option \<Rightarrow> jsval list option \<Rightarrow> jsval
     \<Rightarrow> pdf_options option \<Rightarrow> buffer eff" where
  "try_body bi e url timeout requests cookies waitForSelector pdfOptions =
     bind_eff (render_steps bi e url timeout requests cookies waitForSelector)
       (finish_steps bi e pdfOptions)"

text \<open>The whole function: the page is acquired outside the \<open>try\<close> block; the \<open>catch\<close>
  block closes the page (the next call of \<open>page.close\<close>) and throws the error again,
  unless closing throws itself. A call that stays pending and the end of the process are
  no errors: the \<open>catch\<close> block does not run.\<close>

definition generatePdf ::
  "js_builtins \<Rightarrow> env \<Rightarrow> jsval \<Rightarrow> jsval \<Rightarrow> rule list option \<Rightarrow> jsval list option \<Rightarrow> jsval
     \<Rightarrow> pdf_options option \<Rightarrow> buffer eff" where
  "generatePdf bi e url timeout requests cookies waitForSelector pdfOptions =
     (case newPage_res e of
        Some err \<Rightarrow> (Rejected err, [NewPage])
      | None \<Rightarrow>
          (case try_body bi e url (default_param (JNum (Fin 70000)) timeout) requests cookies
                  (default_param (JStr ''body'') waitForSelector) pdfOptions of
             (Rejected ex, t) \<Rightarrow>
               (case close_res e (count_list t ClosePage) of
                  None \<Rightarrow> (Rejected ex, NewPage # t @ [ClosePage])
                | Some err \<Rightarrow> (Rejected err, NewPage # t @ [ClosePage]))
           | (Resolved buf, t) \<Rightarrow> (Resolved buf, NewPage # t)
           | (Pending, t) \<Rightarrow> (Pending, NewPage # t)
           | (Crashed, t) \<Rightarrow> (Crashed, NewPage # t)))"

text \<open>The events of the preparation of the page.\<close>

fun is_prepare :: "event \<Rightarrow> bool" where
  "is_prepare (SetCookie cs) = True"
| "is_prepare (SetRequestInterception b) = True"
| "is_prepare (OnRequest rs) = True"
| "is_prepare ev = False"

text \<open>The navigation part of the trace, spelled out.\<close>

definition nav_trace :: "js_builtins \<Rightarrow> env \<Rightarrow> jsval \<Rightarrow> jsval \<Rightarrow> jsval \<Rightarrow> event list" where
  "nav_trace bi e url timeout waitForSelector =
     (case fst (normalize_url bi url) of
        Resolved url' \<Rightarrow>
          WaitForSelector waitForSelector #
            (case waitForSelector_res e of
               None \<Rightarrow>
                 Goto url' timeout [''networkidle0'', ''domcontentloaded''] #
                   (case goto_res e of None \<Rightarrow> [PagePdf True ''A4'' False timeout] | Some err \<Rightarrow> [])
             | Some err \<Rightarrow> [])
      | _ \<Rightarrow> [])"

text \<open>The URL that a trace navigates to, if it navigates.\<close>

fun navigated :: "event list \<Rightarrow> jsval option" where
  "navigated [] = None"
| "navigated (Goto u tm w # t) = Some u"
| "navigated (ev # t) = navigated t"

fun is_Goto :: "event \<Rightarrow> bool" where
  "is_Goto (Goto u tm w) = True"
| "is_Goto ev = False"


text \<open>A scheme prefix, in the words of the specification: the name of a scheme (a
  letter, then letters, digits, plus, minus or dot) followed by \<open>://\<close>.\<close>

definition is_alpha :: "char \<Rightarrow> bool" where
  "is_alpha c = (let n = (of_char c :: nat) in (65 \<le> n \<and> n \<le> 90) \<or> (97 \<le> n \<and> n \<le> 122))"

definition is_digit :: "char \<Rightarrow> bool" where
  "is_digit c = (let n = (of_char c :: nat) in 48 \<le> n \<and> n \<le> 57)"

definition is_scheme_char :: "char \<Rightarrow> bool" where
  "is_scheme_char c = (is_alpha c \<or> is_digit c \<or> c = CHR ''+'' \<or> c = CHR ''-'' \<or> c = CHR ''.'')"

definition has_scheme_prefix :: "string \<Rightarrow> bool" where
  "has_scheme_prefix s =
     (s \<noteq> [] \<and> is_alpha (hd s) \<and> prefix ''://'' (dropWhile is_scheme_char s))"

section \<open>The request router (server.js)\<close>

datatype payload = Text string | Bytes buffer

record response =
  status :: nat
  content_type :: "string option"
  payload :: payload

subsection \<open>POST /generateReport\<close>

text \<open>The fields read from \<open>req.body\<close>; a field that the body lacks is \<open>undefined\<close>
  (\<open>None\<close> for the two arrays).\<close>

record report_body =
  body_url :: jsval
  body_intercept :: "rule list option"
  body_cookies :: "jsval list option"
  body_waitForSelector :: jsval
  body_compression :: jsval
  body_dpi :: jsval
  body_quality :: jsval
  body_timeout :: jsval

text \<open>The handler: the response sent, if one is sent (none while the adapter stays
  pending, none when the process has ended), and the trace of the request.\<close>

definition post_generateReport :: "js_builtins \<Rightarrow> env \<Rightarrow> report_body \<Rightarrow> response option \<times> event list" where
  "post_generateReport bi e b =
     (let pdfOptions = \<lparr>compression = body_compression b, dpi = body_dpi b, quality = body_quality b\<rparr>
      in if \<not> truthy (body_url b)
         then (Some \<lparr>status = 400, content_type = None,
                      payload = Text (''Missing '' @ [CHR 0x22] @ ''url'' @ [CHR 0x22] @ '' in request body'')\<rparr>, [])
         else case generatePdf bi e (body_url b) (body_timeout b) (body_intercept b) (body_cookies b)
                     (body_waitForSelector b) (Some pdfOptions) of
                (Resolved stream, t) \<Rightarrow>
                  (Some \<lparr>status = 200, content_type = Some ''application/pdf'', payload = Bytes stream\<rparr>, t)
              | (Rejected err, t) \<Rightarrow>
                  (Some \<lparr>status = 500, content_type = None, payload = Text ''Failed to generate PDF''\<rparr>, t)
              | (Pending, t) \<Rightarrow> (None, t)
              | (Crashed, t) \<Rightarrow> (None, t))"

subsection \<open>POST /compressPdf/:dpi\<close>

text \<open>\<open>parseInt(s, 10)\<close>: leading white space is skipped, a sign is read, and the
  longest run of decimal digits that follows is the value; NaN when that run is empty.\<close>

definition is_ws :: "char \<Rightarrow> bool" where
  "is_ws c = (c \<in> set [CHR 0x09, CHR 0x0A, CHR 0x0B, CHR 0x0C, CHR 0x0D, CHR 0x20, CHR 0xA0])"

definition digits_value :: "string \<Rightarrow> nat" where
  "digits_value Z = foldl (\<lambda>a c. 10 * a + (of_char c - 48)) 0 Z"

text \<open>What is left of the string after the leading white space and one sign.\<close>

definition unsigned_part :: "string \<Rightarrow> string" where
  "unsigned_part s =
     (let S = dropWhile is_ws s
      in if S \<noteq> [] \<and> (hd S = CHR ''+'' \<or> hd S = CHR ''-'') then tl S else S)"

text \<open>The number of an integer: its nearest double, or an infinity.\<close>

definition number_of_int :: "js_builtins \<Rightarrow> int \<Rightarrow> jsnum" where
  "number_of_int bi i =
     (case IntToDouble bi i of Some x \<Rightarrow> Fin x | None \<Rightarrow> if i < 0 then NegInf else PosInf)"

definition parseInt10 :: "js_builtins \<Rightarrow> string \<Rightarrow> jsnum" where
  "parseInt10 bi s =
     (let S = dropWhile is_ws s;
          sign = (if S \<noteq> [] \<and> hd S = CHR ''-'' then - 1 else 1);
          S' = unsigned_part s;
          Z = takeWhile is_digit S'
      in if Z = [] then NaN else number_of_int bi (sign * int (digits_value Z)))"


definition begins_with_digit :: "string \<Rightarrow> bool" where
  "begins_with_digit p = (case unsigned_part p of [] \<Rightarrow> False | c # cs \<Rightarrow> is_digit c)"

text \<open>The handler, run when the piped request has finished: \<open>chunks\<close> holds the whole
  body.\<close>

definition post_compressPdf :: "js_builtins \<Rightarrow> env \<Rightarrow> string \<Rightarrow> buffer list \<Rightarrow> response option \<times> event list" where
  "post_compressPdf bi e dpi_param chunks =
     (let pdfBuffer = concat chunks;
          d = parseInt10 bi dpi_param
      in if length pdfBuffer = 0
         then (Some \<lparr>status = 400, content_type = None,
                      payload = Text ''No file uploaded or file is empty.''\<rparr>, [])
         else case compressPdfBuffer bi e pdfBuffer (JNum d) JUndefined of
                (Resolved compressedPdfBuffer, t) \<Rightarrow>
                  (Some \<lparr>status = 200, content_type = Some ''application/pdf'',
                         payload = Bytes compressedPdfBuffer\<rparr>, t)
              | (Rejected err, t) \<Rightarrow>
                  (Some \<lparr>status = 500, content_type = None, payload = Text ''Error compressing PDF''\<rparr>, t)
              | (Pending, t) \<Rightarrow> (None, t)
              | (Crashed, t) \<Rightarrow> (None, t))"

section \<open>Sample inputs\<close>

text \<open>Builtins for the concrete runs below. They give the results of the language on
  the values those runs can meet (the strings \<open>1\<close> and \<open>true\<close> and the empty string
  converted to a number; an empty array, an array of one string and an object converted to
  a string; \<open>JSON.stringify\<close> of \<open>undefined\<close>, \<open>null\<close> and a boolean; an integer of at most
  53 bits) and some value elsewhere. The world \<open>ok_env\<close> is one in which every call
  succeeds and the subprocess writes two chunks, a warning on its standard error, and
  exits with status 0.\<close>

definition sample_builtins :: js_builtins where
  "sample_builtins =
     \<lparr>StringToNumber = (\<lambda>s. if s = ''1'' then Fin 1 else if s = [] then Fin 0 else NaN),
      ObjectToString =
        (\<lambda>v. case v of JArr [JStr s] \<Rightarrow> s | JObj fs \<Rightarrow> ''[object Object]'' | _ \<Rightarrow> []),
      JSON_stringify =
        (\<lambda>v. case v of
               JUndefined \<Rightarrow> JUndefined
             | JBool b \<Rightarrow> JStr (if b then ''true'' else ''false'')
             | _ \<Rightarrow> JStr ''null''),
      IntToDouble = (\<lambda>i. Some (of_int i))\<rparr>"

definition ok_env :: env where
  "ok_env =
     \<lparr>newPage_res = None, setCookie_res = None, setRequestInterception_res = None,
      waitForSelector_res = None, goto_res = None, pdf_res = Inr [0x25, 0x50, 0x44, 0x46],
      spawn_res = None,
      gs_events = [StdoutData [0x25, 0x50], StderrData ''warning'', StdoutData [0x44, 0x46],
                   CloseEvent (Some 0)],
      close_res = (\<lambda>n. None)\<rparr>"


text \<open>The body \<open>{}\<close>: every field is \<open>undefined\<close>.\<close>

definition empty_body :: report_body where
  "empty_body =
     \<lparr>body_url = JUndefined, body_intercept = None, body_cookies = None,
      body_waitForSelector = JUndefined, body_compression = JUndefined, body_dpi = JUndefined,
      body_quality = JUndefined, body_timeout = JUndefined\<rparr>"

section \<open>Properties of the string searches\<close>

lemma includes_str_sublist: "includes_str s sub \<longleftrightarrow> sublist sub s"
  by (induction s) (auto simp: sublist_Cons_right)

lemma indexOf_from_lower: "indexOf_from i s sub \<noteq> - 1 \<Longrightarrow> i \<le> indexOf_from i s sub"
proof (induction s arbitrary: i)
  case Nil
  then show ?case by (simp split: if_splits)
next
  case (Cons c cs)
  show ?case
  proof (cases "prefix sub (c # cs)")
    case True
    then show ?thesis by simp
  next
    case False
    with Cons.prems have "indexOf_from (i + 1) cs sub \<noteq> - 1" by simp
    then have "i + 1 \<le> indexOf_from (i + 1) cs sub" by (rule Cons.IH)
    with False show ?thesis by simp
  qed
qed

lemma indexOf_zero_iff: "indexOf s sub = 0 \<longleftrightarrow> prefix sub s"
proof (cases s)
  case Nil
  then show ?thesis by (simp add: indexOf_def)
next
  case (Cons c cs)
  show ?thesis
  proof (cases "prefix sub (c # cs)")
    case True
    with Cons show ?thesis by (simp add: indexOf_def)
  next
    case False
    have "indexOf_from 1 cs sub \<noteq> 0"
      using indexOf_from_lower [of 1 cs sub] by auto
    with False Cons show ?thesis by (simp add: indexOf_def)
  qed
qed

section \<open>Properties of the subprocess handlers\<close>

lemma settled_stays:
  "settled s = Some r \<Longrightarrow> settled (foldl gs_handle s evs) = Some r"
proof (induction evs arbitrary: s)
  case Nil
  then show ?case by simp
next
  case (Cons ev evs)
  from Cons.prems have "settled (gs_handle s ev) = Some r"
    by (cases ev) (simp_all add: settle_def)
  then show ?case using Cons.IH by simp
qed

lemma foldl_data:
  "list_all is_data pre \<Longrightarrow>
     foldl gs_handle s pre = s\<lparr>outputChunks := outputChunks s @ stdout_chunks pre\<rparr>"
proof (induction pre arbitrary: s)
  case Nil
  then show ?case by simp
next
  case (Cons ev pre)
  then show ?case by (cases ev) simp_all
qed

lemma split_at_first_settling:
  "list_all is_data evs \<or>
   (\<exists>pre ev post. evs = pre @ ev # post \<and> list_all is_data pre \<and> \<not> is_data ev)"
proof (cases "list_all is_data evs")
  case True
  then show ?thesis by simp
next
  case False
  then obtain x where x: "x \<in> set evs" "\<not> is_data x" by (auto simp: list_all_iff)
  then have "evs = takeWhile is_data evs @ dropWhile is_data evs" by simp
  moreover from x have "dropWhile is_data evs \<noteq> []" by auto
  then obtain ev post where d: "dropWhile is_data evs = ev # post" by (cases "dropWhile is_data evs") auto
  moreover from d have "\<not> is_data ev" using hd_dropWhile [of is_data evs] by auto
  moreover have "list_all is_data (takeWhile is_data evs)"
    by (auto simp: list_all_iff dest: set_takeWhileD)
  ultimately show ?thesis by metis
qed

lemma stdin_ok_Cons: "stdin_ok (ev # evs) \<longleftrightarrow> \<not> is_stdin_error ev \<and> stdin_ok evs"
  by (simp add: stdin_ok_def)

lemma stdin_ok_mem: "stdin_ok evs \<Longrightarrow> ev \<in> set evs \<Longrightarrow> \<not> is_stdin_error ev"
  by (auto simp: stdin_ok_def filter_empty_conv)

text \<open>The end of the process.\<close>

lemma died_stays: "died s \<Longrightarrow> foldl gs_step s evs = s"
  by (induction evs) (simp_all add: gs_step_def)

lemma gs_handle_died: "\<not> is_stdin_error ev \<Longrightarrow> died (gs_handle s ev) = died s"
  by (cases ev) (simp_all add: settle_def)

lemma died_foldl: "died (foldl gs_step s evs) \<longleftrightarrow> died s \<or> \<not> stdin_ok evs"
proof (induction evs arbitrary: s)
  case Nil
  then show ?case by (simp add: stdin_ok_def)
next
  case (Cons ev evs)
  show ?case
  proof (cases "died s")
    case True
    then show ?thesis using died_stays [of s "ev # evs"] by simp
  next
    case False
    show ?thesis
    proof (cases "is_stdin_error ev")
      case True
      then obtain m where "ev = StdinError m" by (cases ev) simp_all
      with False have "died (gs_step s ev)" by (simp add: gs_step_def)
      then have "foldl gs_step (gs_step s ev) evs = gs_step s ev" by (rule died_stays)
      with \<open>died (gs_step s ev)\<close> True show ?thesis by (simp add: stdin_ok_Cons)
    next
      case e: False
      with False have "died (gs_step s ev) = False"
        by (simp add: gs_step_def gs_handle_died)
      with Cons.IH [of "gs_step s ev"] False e show ?thesis by (simp add: stdin_ok_Cons)
    qed
  qed
qed

lemma died_gs_run: "died (gs_run evs) \<longleftrightarrow> \<not> stdin_ok evs"
  by (simp add: gs_run_def died_foldl gs_init_def)

lemma foldl_step_ok:
  "stdin_ok evs \<Longrightarrow> \<not> died s \<Longrightarrow> foldl gs_step s evs = foldl gs_handle s evs"
proof (induction evs arbitrary: s)
  case Nil
  then show ?case by simp
next
  case (Cons ev evs)
  then have "\<not> is_stdin_error ev" "stdin_ok evs" by (simp_all add: stdin_ok_Cons)
  with Cons.prems(2) have "gs_step s ev = gs_handle s ev" "\<not> died (gs_handle s ev)"
    by (simp_all add: gs_step_def gs_handle_died)
  with Cons.IH [of "gs_handle s ev"] \<open>stdin_ok evs\<close> show ?case by simp
qed

lemma gs_run_ok: "stdin_ok evs \<Longrightarrow> gs_run evs = foldl gs_handle gs_init evs"
  by (simp add: gs_run_def foldl_step_ok gs_init_def)

text \<open>The promise, when no write fails.\<close>

lemma gs_run_data: "list_all is_data pre \<Longrightarrow> stdin_ok pre \<Longrightarrow> settled (gs_run pre) = None"
  by (simp add: gs_run_ok foldl_data gs_init_def)

lemma gs_run_close:
  assumes "list_all is_data pre" and "stdin_ok (pre @ CloseEvent c # post)"
  shows "settled (gs_run (pre @ CloseEvent c # post)) =
           Some (if c = Some 0 then Inr (concat (stdout_chunks pre)) else Inl (Error (exit_message c)))"
proof -
  have "settled (gs_handle (foldl gs_handle gs_init pre) (CloseEvent c)) =
          Some (if c = Some 0 then Inr (concat (stdout_chunks pre)) else Inl (Error (exit_message c)))"
    using assms(1) by (simp add: foldl_data gs_init_def settle_def)
  then show ?thesis by (simp add: gs_run_ok [OF assms(2)] settled_stays)
qed

lemma gs_run_error:
  assumes "list_all is_data pre" and "stdin_ok (pre @ ErrorEvent m # post)"
  shows "settled (gs_run (pre @ ErrorEvent m # post)) =
           Some (Inl (Error (''Failed to execute Ghostscript: '' @ m)))"
proof -
  have "settled (gs_handle (foldl gs_handle gs_init pre) (ErrorEvent m)) =
          Some (Inl (Error (''Failed to execute Ghostscript: '' @ m)))"
    using assms(1) by (simp add: foldl_data gs_init_def settle_def)
  then show ?thesis by (simp add: gs_run_ok [OF assms(2)] settled_stays)
qed

lemma stdin_ok_prefix: "stdin_ok (xs @ ys) \<Longrightarrow> stdin_ok xs"
  by (simp add: stdin_ok_def)

lemma gs_run_resolved_iff:
  assumes ok: "stdin_ok evs"
  shows "settled (gs_run evs) = Some (Inr out) \<longleftrightarrow>
     (\<exists>pre post. list_all is_data pre \<and> evs = pre @ CloseEvent (Some 0) # post
        \<and> out = concat (stdout_chunks pre))"
proof
  assume r: "settled (gs_run evs) = Some (Inr out)"
  from split_at_first_settling [of evs] show
    "\<exists>pre post. list_all is_data pre \<and> evs = pre @ CloseEvent (Some 0) # post
        \<and> out = concat (stdout_chunks pre)"
  proof
    assume "list_all is_data evs"
    with r ok show ?thesis by (simp add: gs_run_data)
  next
    assume "\<exists>pre ev post. evs = pre @ ev # post \<and> list_all is_data pre \<and> \<not> is_data ev"
    then obtain pre ev post where s: "evs = pre @ ev # post" "list_all is_data pre" "\<not> is_data ev"
      by blast
    show ?thesis
    proof (cases ev)
      case (CloseEvent c)
      with r s ok have "c = Some 0 \<and> out = concat (stdout_chunks pre)"
        by (auto simp: gs_run_close split: if_splits)
      with s CloseEvent show ?thesis by blast
    next
      case (ErrorEvent m)
      with r s ok show ?thesis by (simp add: gs_run_error)
    next
      case (StdinError m)
      with s(1) have "ev \<in> set evs" "is_stdin_error ev" by simp_all
      with ok show ?thesis using stdin_ok_mem by blast
    qed (use s in simp_all)
  qed
next
  assume "\<exists>pre post. list_all is_data pre \<and> evs = pre @ CloseEvent (Some 0) # post
        \<and> out = concat (stdout_chunks pre)"
  with ok show "settled (gs_run evs) = Some (Inr out)" by (auto simp: gs_run_close)
qed

lemma foldl_drop_stderr:
  "foldl gs_step s (filter (\<lambda>ev. \<not> is_stderr ev) evs) = foldl gs_step s evs"
proof (induction evs arbitrary: s)
  case Nil
  then show ?case by simp
next
  case (Cons ev evs)
  then show ?case by (cases ev) (simp_all add: gs_step_def)
qed

lemma sublist_exit_code: "sublist (show_exit_code c) (exit_message c)"
  unfolding exit_message_def by (rule sublist_appendI)

lemma gs_outcome_died: "\<not> stdin_ok evs \<Longrightarrow> gs_outcome (gs_run evs) = Crashed"
  by (simp add: gs_outcome_def died_gs_run)

lemma gs_outcome_ok:
  "stdin_ok evs \<Longrightarrow>
     gs_outcome (gs_run evs) =
       (case settled (gs_run evs) of
          None \<Rightarrow> Pending
        | Some (Inl err) \<Rightarrow> Rejected err
        | Some (Inr out) \<Rightarrow> Resolved out)"
  using died_gs_run [of evs] by (simp add: gs_outcome_def)


section \<open>The clamp of the compression adapter\<close>

lemma clamp_in_range:
  "n \<noteq> NaN \<Longrightarrow> lo \<le> hi \<Longrightarrow> in_range lo hi (Math_max (Fin lo) (Math_min (Fin hi) n))"
  by (cases n) (simp_all add: Math_min_def Math_max_def)

lemma used_dpi_in_range:
  "ToNumber bi (default_param (JNum (Fin 150)) d) \<noteq> NaN \<Longrightarrow> in_range 10 600 (used_dpi bi d)"
  unfolding used_dpi_def by (rule clamp_in_range) simp_all

lemma used_jpegQuality_in_range:
  "ToNumber bi (default_param (JNum (Fin 95)) q) \<noteq> NaN \<Longrightarrow> in_range 1 100 (used_jpegQuality bi q)"
  unfolding used_jpegQuality_def by (rule clamp_in_range) simp_all

lemma used_dpi_NaN: "used_dpi bi (JNum NaN) = NaN"
  by (simp add: used_dpi_def default_param_def Math_min_def Math_max_def)

lemma used_jpegQuality_default: "used_jpegQuality bi JUndefined = Fin 95"
  by (simp add: used_jpegQuality_def default_param_def Math_min_def Math_max_def)

lemma number_of_int_not_NaN: "number_of_int bi i \<noteq> NaN"
  by (simp add: number_of_int_def split: option.splits)

lemma takeWhile_empty_iff: "takeWhile P xs = [] \<longleftrightarrow> (case xs of [] \<Rightarrow> True | x # ys \<Rightarrow> \<not> P x)"
  by (cases xs) simp_all

lemma parseInt10_NaN_iff: "parseInt10 bi p = NaN \<longleftrightarrow> \<not> begins_with_digit p"
  by (simp add: parseInt10_def Let_def begins_with_digit_def takeWhile_empty_iff
      number_of_int_not_NaN split: list.splits)

lemma set_unsigned_part: "set (unsigned_part p) \<subseteq> set p"
proof -
  have "set (tl (dropWhile is_ws p)) \<subseteq> set p" "set (dropWhile is_ws p) \<subseteq> set p"
    using set_dropWhileD [of _ is_ws p] list.set_sel(2) [of "dropWhile is_ws p"]
    by (cases "dropWhile is_ws p"; auto)+
  then show ?thesis by (simp add: unsigned_part_def Let_def)
qed

lemma no_digit_not_begins: "\<forall>c\<in>set p. \<not> is_digit c \<Longrightarrow> \<not> begins_with_digit p"
  using set_unsigned_part [of p]
  by (auto simp: begins_with_digit_def split: list.splits)

lemma parseInt10_no_digit: "\<forall>c\<in>set p. \<not> is_digit c \<Longrightarrow> parseInt10 bi p = NaN"
  by (simp add: parseInt10_NaN_iff no_digit_not_begins)

text \<open>
  Claim C1, evaluated at the input that breaks it. The clamp of \<open>compressPdfBuffer\<close> leaves
  NaN as it is: with NaN for the resolution the used resolution is NaN, which is not in the
  interval from 10 to 600, and with NaN for the quality the used quality is NaN, which is
  not in the interval from 1 to 100. The service passes NaN itself: the path segment
  \<open>abc\<close> of \<open>POST /compressPdf/abc\<close> parses to NaN, and with a body that is not empty the
  subprocess is started with the resolution NaN in its arguments.
\<close>

theorem C1_clamp_keeps_NaN:
  "used_dpi bi (JNum NaN) = NaN \<and> \<not> in_range 10 600 (used_dpi bi (JNum NaN))
   \<and> used_jpegQuality bi (JNum NaN) = NaN \<and> \<not> in_range 1 100 (used_jpegQuality bi (JNum NaN))
   \<and> parseInt10 bi ''abc'' = NaN
   \<and> hd (snd (post_compressPdf bi e ''abc'' [[0x25, 0x50, 0x44, 0x46]])) = Spawn ''gs'' (gs_args NaN (Fin 95))"
proof -
  have p: "parseInt10 bi ''abc'' = NaN"
    by (rule parseInt10_no_digit) (simp add: is_digit_def)
  have "hd (snd (post_compressPdf bi e ''abc'' [[0x25, 0x50, 0x44, 0x46]])) = Spawn ''gs'' (gs_args NaN (Fin 95))"
    by (simp add: post_compressPdf_def Let_def p compressPdfBuffer_def used_dpi_NaN used_jpegQuality_default
        split: option.splits sum.splits prod.splits promise.splits)
  with p show ?thesis
    by (simp add: used_dpi_NaN used_jpegQuality_def default_param_def Math_min_def Math_max_def)
qed

section \<open>The outcome of the compression adapter\<close>

lemma compress_result:
  "fst (compressPdfBuffer bi e buf d q) =
     (case spawn_res e of
        Some err \<Rightarrow> Rejected err
      | None \<Rightarrow> gs_outcome (gs_run (gs_events e)))"
  by (simp add: compressPdfBuffer_def Let_def split: option.splits)


text \<open>
  What the adapter does when no write to the standard input fails. It resolves with a
  buffer exactly when \<open>spawn\<close> did not throw and the first event that is not data on the
  standard output or standard error is a close with exit code 0; the buffer is then the
  concatenation, in arrival order, of the chunks written to the standard output before
  that close. When \<open>spawn\<close> throws, the call rejects with that error. When that first event
  is a close with another exit code, the call rejects with a message that contains the
  printed exit code. When it is an error event, the call rejects with the message of that
  event. Removing every event of the standard error changes nothing in the outcome (also
  when a write fails).
\<close>

lemma compress_outcome_when_stdin_ok:
  "(stdin_ok (gs_events e) \<longrightarrow>
     (fst (compressPdfBuffer bi e buf d q) = Resolved out \<longleftrightarrow>
        spawn_res e = None \<and>
        (\<exists>pre post. list_all is_data pre \<and> gs_events e = pre @ CloseEvent (Some 0) # post
           \<and> out = concat (stdout_chunks pre))))
   \<and> (spawn_res e = Some err \<longrightarrow> fst (compressPdfBuffer bi e buf d q) = Rejected err)
   \<and> (stdin_ok (gs_events e) \<and> spawn_res e = None \<and> list_all is_data pre'
        \<and> gs_events e = pre' @ CloseEvent c # post' \<and> c \<noteq> Some 0 \<longrightarrow>
        fst (compressPdfBuffer bi e buf d q) = Rejected (Error (exit_message c))
        \<and> sublist (show_exit_code c) (exit_message c))
   \<and> (stdin_ok (gs_events e) \<and> spawn_res e = None \<and> list_all is_data pre'
        \<and> gs_events e = pre' @ ErrorEvent m # post' \<longrightarrow>
        fst (compressPdfBuffer bi e buf d q) = Rejected (Error (''Failed to execute Ghostscript: '' @ m)))
   \<and> fst (compressPdfBuffer bi (e\<lparr>gs_events := filter (\<lambda>ev. \<not> is_stderr ev) (gs_events e)\<rparr>) buf d q)
       = fst (compressPdfBuffer bi e buf d q)"
proof (intro conjI impI)
  assume ok: "stdin_ok (gs_events e)"
  show "fst (compressPdfBuffer bi e buf d q) = Resolved out \<longleftrightarrow>
      spawn_res e = None \<and>
      (\<exists>pre post. list_all is_data pre \<and> gs_events e = pre @ CloseEvent (Some 0) # post
         \<and> out = concat (stdout_chunks pre))"
    unfolding gs_run_resolved_iff [OF ok, symmetric]
    by (auto simp: compress_result gs_outcome_ok [OF ok] split: option.splits sum.splits)
next
  assume "spawn_res e = Some err"
  then show "fst (compressPdfBuffer bi e buf d q) = Rejected err"
    by (simp add: compress_result)
next
  assume a: "stdin_ok (gs_events e) \<and> spawn_res e = None \<and> list_all is_data pre'
      \<and> gs_events e = pre' @ CloseEvent c # post' \<and> c \<noteq> Some 0"
  then have ok: "stdin_ok (gs_events e)" and sp: "spawn_res e = None"
    and dt: "list_all is_data pre'" and ev: "gs_events e = pre' @ CloseEvent c # post'"
    and nz: "c \<noteq> Some 0"
    by blast+
  from ok have "stdin_ok (pre' @ CloseEvent c # post')" by (simp only: ev)
  from gs_run_close [OF dt this] nz
  have "settled (gs_run (gs_events e)) = Some (Inl (Error (exit_message c)))"
    by (simp only: ev if_False)
  then show "fst (compressPdfBuffer bi e buf d q) = Rejected (Error (exit_message c))"
    by (simp add: compress_result sp gs_outcome_ok [OF ok])
  show "sublist (show_exit_code c) (exit_message c)" by (rule sublist_exit_code)
next
  assume a: "stdin_ok (gs_events e) \<and> spawn_res e = None \<and> list_all is_data pre'
      \<and> gs_events e = pre' @ ErrorEvent m # post'"
  then have ok: "stdin_ok (gs_events e)" and sp: "spawn_res e = None"
    and dt: "list_all is_data pre'" and ev: "gs_events e = pre' @ ErrorEvent m # post'"
    by blast+
  from ok have "stdin_ok (pre' @ ErrorEvent m # post')" by (simp only: ev)
  from gs_run_error [OF dt this]
  have "settled (gs_run (gs_events e)) = Some (Inl (Error (''Failed to execute Ghostscript: '' @ m)))"
    by (simp only: ev)
  then show "fst (compressPdfBuffer bi e buf d q) = Rejected (Error (''Failed to execute Ghostscript: '' @ m))"
    by (simp add: compress_result sp gs_outcome_ok [OF ok])
next
  show "fst (compressPdfBuffer bi (e\<lparr>gs_events := filter (\<lambda>ev. \<not> is_stderr ev) (gs_events e)\<rparr>) buf d q)
       = fst (compressPdfBuffer bi e buf d q)"
  proof -
    have "gs_run (filter (\<lambda>ev. \<not> is_stderr ev) (gs_events e)) = gs_run (gs_events e)"
      by (simp add: gs_run_def foldl_drop_stderr)
    then show ?thesis by (simp add: compress_result split: option.splits)
  qed
qed

lemma show_1: "show_exit_code (Some 1) = ''1''"
  by code_simp

text \<open>
  Claim C2, evaluated at the input that breaks it. The subprocess ends with exit code 1
  before it has read what the adapter writes to its standard input, so the write fails
  and the stream to the standard input raises an error, for which the function has no
  listener: the server process ends, and the call neither resolves nor rejects, where
  the claim has it reject with a message that contains the exit code. The request
  \<open>POST /compressPdf/150\<close> with such a body gets no response. With the same exit code and
  no failed write the call does reject with that message.
\<close>

theorem C2_stdin_error_ends_the_process:
  "fst (compressPdfBuffer bi
          (e\<lparr>spawn_res := None, gs_events := [StdinError ''write EPIPE'', CloseEvent (Some 1)]\<rparr>)
          buf d q) = Crashed
   \<and> \<not> completes (fst (compressPdfBuffer bi
          (e\<lparr>spawn_res := None, gs_events := [StdinError ''write EPIPE'', CloseEvent (Some 1)]\<rparr>)
          buf d q))
   \<and> fst (post_compressPdf bi
          (e\<lparr>spawn_res := None, gs_events := [StdinError ''write EPIPE'', CloseEvent (Some 1)]\<rparr>)
          ''150'' [[0x25, 0x50, 0x44, 0x46]]) = None
   \<and> fst (compressPdfBuffer bi (e\<lparr>spawn_res := None, gs_events := [CloseEvent (Some 1)]\<rparr>) buf d q)
       = Rejected (Error ''Ghostscript process exited with code 1. Check the input PDF or Ghostscript configuration.'')"
proof -
  have c: "fst (compressPdfBuffer bi
          (e\<lparr>spawn_res := None, gs_events := [StdinError ''write EPIPE'', CloseEvent (Some 1)]\<rparr>)
          buf' d' q') = Crashed" for buf' d' q'
    by (simp add: compress_result gs_run_def gs_step_def gs_init_def gs_outcome_def)
  have r: "fst (compressPdfBuffer bi (e\<lparr>spawn_res := None, gs_events := [CloseEvent (Some 1)]\<rparr>) buf d q)
       = Rejected (Error (exit_message (Some 1)))"
    by (simp add: compress_result gs_run_def gs_step_def gs_init_def gs_outcome_def settle_def)
  have m: "exit_message (Some 1) = ''Ghostscript process exited with code 1. Check the input PDF or Ghostscript configuration.''"
    by (simp add: exit_message_def show_1)
  have p: "fst (post_compressPdf bi
          (e\<lparr>spawn_res := None, gs_events := [StdinError ''write EPIPE'', CloseEvent (Some 1)]\<rparr>)
          ''150'' [[0x25, 0x50, 0x44, 0x46]]) = None"
  proof -
    obtain x t where xt: "compressPdfBuffer bi
          (e\<lparr>spawn_res := None, gs_events := [StdinError ''write EPIPE'', CloseEvent (Some 1)]\<rparr>)
          [0x25, 0x50, 0x44, 0x46] (JNum (parseInt10 bi ''150'')) JUndefined = (x, t)"
      by (rule prod.exhaust)
    with c [of "[0x25, 0x50, 0x44, 0x46]" "JNum (parseInt10 bi ''150'')" JUndefined]
    have "x = Crashed" by simp
    with xt show ?thesis by (simp add: post_compressPdf_def Let_def)
  qed
  from c [of buf d q] r m p show ?thesis by simp
qed

section \<open>Properties of the traces\<close>

lemma fst_bind_eff:
  "fst (bind_eff m f) =
     (case fst m of Resolved a \<Rightarrow> fst (f a) | Rejected err \<Rightarrow> Rejected err | Pending \<Rightarrow> Pending
      | Crashed \<Rightarrow> Crashed)"
  by (cases m) (simp add: bind_eff_def split: promise.splits prod.splits)

lemma snd_bind_eff:
  "snd (bind_eff m f) = (case fst m of Resolved a \<Rightarrow> snd m @ snd (f a) | _ \<Rightarrow> snd m)"
  by (cases m) (simp add: bind_eff_def split: promise.splits prod.splits)

lemma fst_call: "fst (call ev res) = (case res of None \<Rightarrow> Resolved () | Some err \<Rightarrow> Rejected err)"
  by (simp add: call_def split: option.splits)

lemma snd_call: "snd (call ev res) = [ev]"
  by (simp add: call_def split: option.splits)

lemmas eff_simps = fst_bind_eff snd_bind_eff fst_call snd_call

lemma prepare_page_events: "ev \<in> set (snd (prepare_page e requests cookies)) \<Longrightarrow> is_prepare ev"
  by (auto simp: prepare_page_def eff_simps split: option.splits list.splits promise.splits)

lemma prepare_page_completes: "completes (fst (prepare_page e requests cookies))"
  by (auto simp: prepare_page_def eff_simps split: option.splits list.splits promise.splits)

lemma normalize_url_trace: "snd (normalize_url bi url) = []"
  by (cases url) simp_all


lemma render_steps_trace:
  "snd (render_steps bi e url timeout requests cookies waitForSelector) =
     snd (prepare_page e requests cookies) @
       (case fst (prepare_page e requests cookies) of
          Resolved u \<Rightarrow> nav_trace bi e url timeout waitForSelector
        | _ \<Rightarrow> [])"
  by (simp add: render_steps_def nav_trace_def eff_simps normalize_url_trace
      split: promise.splits option.splits sum.splits)





lemma close_and_return_simps:
  "fst (close_and_return e buf) = (case close_res e 0 of None \<Rightarrow> Resolved buf | Some err \<Rightarrow> Rejected err)"
  "snd (close_and_return e buf) = [ClosePage]"
  by (simp_all add: close_and_return_def eff_simps split: option.splits)

lemma compress_trace_cases:
  "snd (compressPdfBuffer bi e buf d q) =
     Spawn ''gs'' (gs_args (used_dpi bi d) (used_jpegQuality bi q)) #
       (case spawn_res e of None \<Rightarrow> [StdinWrite buf, StdinEnd] | Some err \<Rightarrow> [])"
  by (simp add: compressPdfBuffer_def Let_def split: option.splits)





lemma generatePdf_trace:
  "newPage_res e = None \<Longrightarrow>
     snd (generatePdf bi e url timeout requests cookies waitForSelector pdfOptions) =
       NewPage #
         snd (try_body bi e url (default_param (JNum (Fin 70000)) timeout) requests cookies
                (default_param (JStr ''body'') waitForSelector) pdfOptions) @
         (case fst (try_body bi e url (default_param (JNum (Fin 70000)) timeout) requests cookies
                (default_param (JStr ''body'') waitForSelector) pdfOptions) of
            Rejected ex \<Rightarrow> [ClosePage]
          | _ \<Rightarrow> [])"
  by (simp add: generatePdf_def split: prod.splits promise.splits option.splits)







section \<open>The page is closed\<close>




section \<open>Navigation\<close>

lemma navigated_skip: "\<forall>ev\<in>set xs. \<not> is_Goto ev \<Longrightarrow> navigated (xs @ ys) = navigated ys"
proof (induction xs)
  case Nil
  then show ?case by simp
next
  case (Cons x xs)
  then show ?case by (cases x) simp_all
qed

lemma prepare_no_Goto: "ev \<in> set (snd (prepare_page e requests cookies)) \<Longrightarrow> \<not> is_Goto ev"
  using prepare_page_events [of ev e requests cookies] by (cases ev) auto

lemma finish_steps_no_Goto: "ev \<in> set (snd (finish_steps bi e pdfOptions pdfBuffer)) \<Longrightarrow> \<not> is_Goto ev"
  by (cases ev)
    (auto simp: finish_steps_def eff_simps close_and_return_simps compressPdfBuffer_def Let_def
      split: option.splits if_splits promise.splits)

lemma normalize_url_string:
  "normalize_url bi (JStr s) = (Resolved (JStr (if prefix ''http'' s then s else ''http://'' @ s)), [])"
  by (simp add: indexOf_zero_iff)

text \<open>The trace of a whole run that acquired its page.\<close>

lemma try_body_trace:
  "snd (try_body bi e url tm requests cookies sel pdfOptions) =
     snd (prepare_page e requests cookies) @
       (case fst (prepare_page e requests cookies) of
          Resolved u \<Rightarrow> nav_trace bi e url tm sel
        | _ \<Rightarrow> []) @
       (case fst (render_steps bi e url tm requests cookies sel) of
          Resolved pdfBuffer \<Rightarrow> snd (finish_steps bi e pdfOptions pdfBuffer)
        | _ \<Rightarrow> [])"
  by (simp add: try_body_def snd_bind_eff render_steps_trace split: promise.splits)

lemma navigated_nav_trace:
  "navigated (nav_trace bi e url tm sel @ rest) =
     (case fst (normalize_url bi url) of
        Resolved url' \<Rightarrow> (case waitForSelector_res e of None \<Rightarrow> Some url' | Some err \<Rightarrow> navigated rest)
      | _ \<Rightarrow> navigated rest)"
  by (simp add: nav_trace_def split: promise.splits option.splits)

lemma navigated_none: "\<forall>ev\<in>set xs. \<not> is_Goto ev \<Longrightarrow> navigated xs = None"
  using navigated_skip [of xs "[]"] by simp

lemma navigated_generatePdf:
  "navigated (snd (generatePdf bi e url timeout requests cookies waitForSelector pdfOptions)) =
     (if newPage_res e = None \<and> fst (prepare_page e requests cookies) = Resolved ()
         \<and> waitForSelector_res e = None
      then (case fst (normalize_url bi url) of Resolved url' \<Rightarrow> Some url' | _ \<Rightarrow> None)
      else None)"
proof (cases "newPage_res e")
  case (Some err)
  then show ?thesis by (simp add: generatePdf_def)
next
  case None
  let ?tm = "default_param (JNum (Fin 70000)) timeout"
  let ?sel = "default_param (JStr ''body'') waitForSelector"
  let ?T = "try_body bi e url ?tm requests cookies ?sel pdfOptions"
  let ?R = "render_steps bi e url ?tm requests cookies ?sel"
  let ?P = "prepare_page e requests cookies"
  have tail: "navigated ((case fst ?R of
          Resolved pdfBuffer \<Rightarrow> snd (finish_steps bi e pdfOptions pdfBuffer)
        | _ \<Rightarrow> []) @ (case fst ?T of Rejected ex \<Rightarrow> [ClosePage] | _ \<Rightarrow> [])) = None"
    by (rule navigated_none) (auto split: promise.splits dest: finish_steps_no_Goto)
  have pre: "\<forall>ev\<in>set (snd ?P). \<not> is_Goto ev"
    using prepare_no_Goto by blast
  show ?thesis
  proof (cases "fst ?P")
    case (Resolved u)
    with None pre tail show ?thesis
      by (simp add: generatePdf_trace try_body_trace navigated_skip navigated_nav_trace
          split: promise.splits option.splits)
  next
    case (Rejected ex)
    with None pre tail show ?thesis
      by (simp add: generatePdf_trace try_body_trace navigated_skip)
  next
    case Pending
    with prepare_page_completes [of e requests cookies] show ?thesis by simp
  next
    case Crashed
    with prepare_page_completes [of e requests cookies] show ?thesis by simp
  qed
qed

text \<open>
  Claim C4, amended. For every string \<open>s\<close> passed as \<open>url\<close>, a run of \<open>generatePdf\<close> that
  navigates at all navigates to \<open>s\<close> unchanged when \<open>s\<close> begins with the four characters
  \<open>http\<close>, and to \<open>http://\<close> followed by \<open>s\<close> otherwise; and it does navigate when the page
  is acquired, the preparation of the page succeeds and the wait for the selector succeeds.
\<close>

theorem C4_navigates_to_http_prefixed:
  "(navigated (snd (generatePdf bi e (JStr s) timeout requests cookies waitForSelector pdfOptions)) = Some u
      \<longrightarrow> u = JStr (if prefix ''http'' s then s else ''http://'' @ s))
   \<and> (newPage_res e = None \<and> fst (prepare_page e requests cookies) = Resolved ()
        \<and> waitForSelector_res e = None
      \<longrightarrow> navigated (snd (generatePdf bi e (JStr s) timeout requests cookies waitForSelector pdfOptions))
            = Some (JStr (if prefix ''http'' s then s else ''http://'' @ s)))"
proof -
  have n: "fst (normalize_url bi (JStr s)) = Resolved (JStr (if prefix ''http'' s then s else ''http://'' @ s))"
    by (simp only: normalize_url_string fst_conv)
  show ?thesis
    unfolding navigated_generatePdf n by (simp split: if_splits)
qed


lemma ok_env_prepares: "newPage_res ok_env = None \<and> fst (prepare_page ok_env None None) = Resolved ()
        \<and> waitForSelector_res ok_env = None"
  by (simp add: ok_env_def prepare_page_def bind_eff_def)

theorem C4_navigates_to_http_prefixed_witness:
  "newPage_res ok_env = None \<and> fst (prepare_page ok_env None None) = Resolved ()
     \<and> waitForSelector_res ok_env = None
   \<and> navigated (snd (generatePdf sample_builtins ok_env (JStr ''example.com'') JUndefined None None JUndefined None))
       = Some (JStr ''http://example.com'')
   \<and> navigated (snd (generatePdf sample_builtins ok_env (JStr ''https://example.com'') JUndefined None None JUndefined None))
       = Some (JStr ''https://example.com'')"
proof -
  have 1: "navigated (snd (generatePdf sample_builtins ok_env (JStr ''example.com'') JUndefined None None JUndefined None))
       = Some (JStr (if prefix ''http'' ''example.com'' then ''example.com'' else ''http://'' @ ''example.com''))"
    using ok_env_prepares
      C4_navigates_to_http_prefixed [of sample_builtins ok_env "''example.com''" JUndefined None None JUndefined None]
    by blast
  have 2: "navigated (snd (generatePdf sample_builtins ok_env (JStr ''https://example.com'') JUndefined None None JUndefined None))
       = Some (JStr (if prefix ''http'' ''https://example.com'' then ''https://example.com'' else ''http://'' @ ''https://example.com''))"
    using ok_env_prepares
      C4_navigates_to_http_prefixed [of sample_builtins ok_env "''https://example.com''" JUndefined None None JUndefined None]
    by blast
  have 3: "(if prefix ''http'' ''example.com'' then ''example.com'' else ''http://'' @ ''example.com'') = ''http://example.com''"
    by simp
  have 4: "(if prefix ''http'' ''https://example.com'' then ''https://example.com'' else ''http://'' @ ''https://example.com'') = ''https://example.com''"
    by simp
  show ?thesis
    using ok_env_prepares 1 2 unfolding 3 4 by blast
qed

text \<open>
  Claim C4 as stated fails. The string \<open>httpbin.org\<close> has no scheme prefix, yet it is
  navigated to unchanged, not with \<open>http://\<close> before it; and \<open>ftp://example.com\<close> has a
  scheme prefix, yet \<open>http://\<close> is put before it.
\<close>

theorem C4_scheme_prefix_counterexample:
  "\<not> has_scheme_prefix ''httpbin.org''
   \<and> navigated (snd (generatePdf sample_builtins ok_env (JStr ''httpbin.org'') JUndefined None None JUndefined None))
       = Some (JStr ''httpbin.org'')
   \<and> JStr ''httpbin.org'' \<noteq> JStr ''http://httpbin.org''
   \<and> has_scheme_prefix ''ftp://example.com''
   \<and> navigated (snd (generatePdf sample_builtins ok_env (JStr ''ftp://example.com'') JUndefined None None JUndefined None))
       = Some (JStr ''http://ftp://example.com'')
   \<and> JStr ''http://ftp://example.com'' \<noteq> JStr ''ftp://example.com''"
proof -
  have a: "\<not> has_scheme_prefix ''httpbin.org''"
    by (simp add: has_scheme_prefix_def is_alpha_def is_scheme_char_def is_digit_def)
  have b: "has_scheme_prefix ''ftp://example.com''"
    by (simp add: has_scheme_prefix_def is_alpha_def is_scheme_char_def is_digit_def)
  have n1: "fst (normalize_url sample_builtins (JStr ''httpbin.org'')) = Resolved (JStr ''httpbin.org'')"
    by (simp add: normalize_url_string del: normalize_url.simps)
  have n2: "fst (normalize_url sample_builtins (JStr ''ftp://example.com'')) = Resolved (JStr ''http://ftp://example.com'')"
    by (simp add: normalize_url_string del: normalize_url.simps)
  have c: "navigated (snd (generatePdf sample_builtins ok_env (JStr ''httpbin.org'') JUndefined None None JUndefined None))
       = Some (JStr ''httpbin.org'')"
    unfolding navigated_generatePdf n1 using ok_env_prepares by simp
  have d: "navigated (snd (generatePdf sample_builtins ok_env (JStr ''ftp://example.com'') JUndefined None None JUndefined None))
       = Some (JStr ''http://ftp://example.com'')"
    unfolding navigated_generatePdf n2 using ok_env_prepares by simp
  from a b c d show ?thesis by simp
qed

section \<open>Interception\<close>

lemma find_first_match:
  "find P xs = Some m \<Longrightarrow> \<exists>pre post. xs = pre @ m # post \<and> (\<forall>r\<in>set pre. \<not> P r) \<and> P m"
proof (induction xs)
  case Nil
  then show ?case by simp
next
  case (Cons x xs)
  show ?case
  proof (cases "P x")
    case True
    with Cons.prems have "x = m" by simp
    with True have "x # xs = [] @ m # xs \<and> (\<forall>r\<in>set []. \<not> P r) \<and> P m" by simp
    then show ?thesis by blast
  next
    case False
    with Cons obtain pre post where "xs = pre @ m # post" "\<forall>r\<in>set pre. \<not> P r" "P m"
      by auto
    with False have "x # xs = (x # pre) @ m # post \<and> (\<forall>r\<in>set (x # pre). \<not> P r) \<and> P m"
      by simp
    then show ?thesis by blast
  qed
qed

lemma on_request_match:
  assumes "\<exists>r\<in>set rs. sublist (apiUrl r) u"
  shows "\<exists>pre m post. rs = pre @ m # post \<and> (\<forall>r\<in>set pre. \<not> sublist (apiUrl r) u)
           \<and> sublist (apiUrl m) u
           \<and> on_request bi rs False u =
               Respond 200 ''application/json; charset=utf-8'' (JSON_stringify bi (apiBody m))"
proof -
  from assms have "find (\<lambda>r. includes_str u (apiUrl r)) rs \<noteq> None"
    by (auto simp: find_None_iff includes_str_sublist)
  then obtain m where m: "find (\<lambda>r. includes_str u (apiUrl r)) rs = Some m" by blast
  from find_first_match [OF m] obtain pre post where
    "rs = pre @ m # post" "\<forall>r\<in>set pre. \<not> sublist (apiUrl r) u" "sublist (apiUrl m) u"
    by (auto simp: includes_str_sublist)
  moreover from m have "on_request bi rs False u =
      Respond 200 ''application/json; charset=utf-8'' (JSON_stringify bi (apiBody m))"
    by (simp add: on_request_def)
  ultimately show ?thesis by blast
qed

lemma on_request_no_match:
  "\<forall>r\<in>set rs. \<not> sublist (apiUrl r) u \<Longrightarrow> on_request bi rs False u = Continue"
  by (simp add: on_request_def find_None_iff [THEN iffD2] includes_str_sublist)

lemma prepare_page_rules:
  assumes "rs \<noteq> []" and "cookies \<noteq> None \<longrightarrow> setCookie_res e = None"
    and "setRequestInterception_res e = None"
  shows "fst (prepare_page e (Some rs) cookies) = Resolved ()"
    and "snd (prepare_page e (Some rs) cookies) =
           (case cookies of None \<Rightarrow> [] | Some cs \<Rightarrow> [SetCookie cs]) @
             [SetRequestInterception True, OnRequest rs]"
  using assms
  by (cases rs; auto simp: prepare_page_def eff_simps split: option.splits list.splits)+

text \<open>
  Claim C5. When \<open>generatePdf\<close> is given a rule list that is not empty, and the page is
  acquired, the cookies (if any) are set and interception is switched on without an error,
  the request handler is registered with that list before any navigation. For a request
  not handled already, the handler does this: when the URL of the request contains the
  \<open>apiUrl\<close> of some rule, it responds with status 200, content type JSON and the body
  \<open>JSON.stringify\<close> of the \<open>apiBody\<close> of the first such rule in the list, and does not
  continue the request; when the URL contains the \<open>apiUrl\<close> of no rule, it continues the
  request.
\<close>

theorem C5_matching_requests_are_mocked:
  "(rs \<noteq> [] \<and> newPage_res e = None \<and> (cookies \<noteq> None \<longrightarrow> setCookie_res e = None)
      \<and> setRequestInterception_res e = None \<longrightarrow>
      (\<exists>pre post. snd (generatePdf bi e url timeout (Some rs) cookies waitForSelector pdfOptions)
          = pre @ SetRequestInterception True # OnRequest rs # post
        \<and> (\<forall>ev\<in>set pre. \<not> is_Goto ev)))
   \<and> ((\<exists>r\<in>set rs. sublist (apiUrl r) u) \<longrightarrow>
        (\<exists>pre m post. rs = pre @ m # post \<and> (\<forall>r\<in>set pre. \<not> sublist (apiUrl r) u)
           \<and> sublist (apiUrl m) u
           \<and> on_request bi rs False u =
               Respond 200 ''application/json; charset=utf-8'' (JSON_stringify bi (apiBody m))))
   \<and> ((\<forall>r\<in>set rs. \<not> sublist (apiUrl r) u) \<longrightarrow> on_request bi rs False u = Continue)"
proof (intro conjI impI)
  assume a: "rs \<noteq> [] \<and> newPage_res e = None \<and> (cookies \<noteq> None \<longrightarrow> setCookie_res e = None)
      \<and> setRequestInterception_res e = None"
  let ?c = "case cookies of None \<Rightarrow> [] | Some cs \<Rightarrow> [SetCookie cs]"
  from a have p: "snd (prepare_page e (Some rs) cookies) = ?c @ [SetRequestInterception True, OnRequest rs]"
    by (simp add: prepare_page_rules)
  from a have "snd (generatePdf bi e url timeout (Some rs) cookies waitForSelector pdfOptions) =
      (NewPage # ?c) @ SetRequestInterception True # OnRequest rs #
        (drop (Suc (length ?c + 2)) (snd (generatePdf bi e url timeout (Some rs) cookies waitForSelector pdfOptions)))"
    by (simp add: generatePdf_trace try_body_trace p)
  moreover have "\<forall>ev\<in>set (NewPage # ?c). \<not> is_Goto ev"
    by (auto split: option.splits)
  ultimately show "\<exists>pre post. snd (generatePdf bi e url timeout (Some rs) cookies waitForSelector pdfOptions)
          = pre @ SetRequestInterception True # OnRequest rs # post
        \<and> (\<forall>ev\<in>set pre. \<not> is_Goto ev)"
    by blast
next
  assume "\<exists>r\<in>set rs. sublist (apiUrl r) u"
  then show "\<exists>pre m post. rs = pre @ m # post \<and> (\<forall>r\<in>set pre. \<not> sublist (apiUrl r) u)
           \<and> sublist (apiUrl m) u
           \<and> on_request bi rs False u =
               Respond 200 ''application/json; charset=utf-8'' (JSON_stringify bi (apiBody m))"
    by (rule on_request_match)
next
  assume "\<forall>r\<in>set rs. \<not> sublist (apiUrl r) u"
  then show "on_request bi rs False u = Continue" by (rule on_request_no_match)
qed

theorem C5_matching_requests_are_mocked_witness:
  "(\<exists>pre post. snd (generatePdf sample_builtins ok_env (JStr ''example.com'') JUndefined
        (Some [\<lparr>apiUrl = ''/y'', apiBody = JNull\<rparr>, \<lparr>apiUrl = ''/x'', apiBody = JBool True\<rparr>])
        None JUndefined None)
      = pre @ SetRequestInterception True #
          OnRequest [\<lparr>apiUrl = ''/y'', apiBody = JNull\<rparr>, \<lparr>apiUrl = ''/x'', apiBody = JBool True\<rparr>] # post
      \<and> (\<forall>ev\<in>set pre. \<not> is_Goto ev))
   \<and> (\<exists>pre m post.
         [\<lparr>apiUrl = ''/y'', apiBody = JNull\<rparr>, \<lparr>apiUrl = ''/x'', apiBody = JBool True\<rparr>] = pre @ m # post
         \<and> (\<forall>r\<in>set pre. \<not> sublist (apiUrl r) ''h/x?q'')
         \<and> sublist (apiUrl m) ''h/x?q''
         \<and> on_request sample_builtins
               [\<lparr>apiUrl = ''/y'', apiBody = JNull\<rparr>, \<lparr>apiUrl = ''/x'', apiBody = JBool True\<rparr>] False ''h/x?q''
             = Respond 200 ''application/json; charset=utf-8'' (JSON_stringify sample_builtins (apiBody m)))
   \<and> on_request sample_builtins
         [\<lparr>apiUrl = ''/y'', apiBody = JNull\<rparr>, \<lparr>apiUrl = ''/x'', apiBody = JBool True\<rparr>] False ''h/a.css''
       = Continue"
proof -
  let ?rs = "[\<lparr>apiUrl = ''/y'', apiBody = JNull\<rparr>, \<lparr>apiUrl = ''/x'', apiBody = JBool True\<rparr>]"
  have a: "?rs \<noteq> [] \<and> newPage_res ok_env = None \<and> (None \<noteq> (None :: jsval list option) \<longrightarrow> setCookie_res ok_env = None)
      \<and> setRequestInterception_res ok_env = None"
    by (simp add: ok_env_def)
  have b: "\<exists>r\<in>set ?rs. sublist (apiUrl r) ''h/x?q''"
    by (simp add: includes_str_sublist [symmetric])
  have c: "\<forall>r\<in>set ?rs. \<not> sublist (apiUrl r) ''h/a.css''"
    by (simp add: includes_str_sublist [symmetric])
  note T1 = C5_matching_requests_are_mocked [of ?rs ok_env None sample_builtins "JStr ''example.com''" JUndefined
      JUndefined None "''h/x?q''"]
  note T2 = C5_matching_requests_are_mocked [of ?rs ok_env None sample_builtins "JStr ''example.com''" JUndefined
      JUndefined None "''h/a.css''"]
  note p1 = T1 [THEN conjunct1, THEN mp, OF a]
  note p2 = T1 [THEN conjunct2, THEN conjunct1, THEN mp, OF b]
  note p3 = T2 [THEN conjunct2, THEN conjunct2, THEN mp, OF c]
  from p1 p2 p3 show ?thesis by (intro conjI)
qed


section \<open>The order of the steps\<close>

lemma in_middle:
  "x \<in> set (xs @ ys @ zs) \<Longrightarrow> \<forall>ev\<in>set xs. \<not> Q ev \<Longrightarrow> \<forall>ev\<in>set zs. \<not> Q ev \<Longrightarrow> Q x
     \<Longrightarrow> x \<in> set ys"
  by auto

text \<open>
  Claim C6. Whenever a run of \<open>generatePdf\<close> navigates, the call before the navigation is
  the wait for the given selector (\<open>body\<close> when none is given), that wait has succeeded,
  nothing has navigated before it and nothing navigates after; the navigation goes to the
  normalized URL, with the given timeout (70000 when none is given), and waits for both
  \<open>networkidle0\<close> and \<open>domcontentloaded\<close>.
\<close>

theorem C6_selector_wait_before_navigation:
  "Goto u tm w \<in> set (snd (generatePdf bi e url timeout requests cookies waitForSelector pdfOptions)) \<longrightarrow>
     (\<exists>pre post.
         snd (generatePdf bi e url timeout requests cookies waitForSelector pdfOptions)
           = pre @ WaitForSelector (default_param (JStr ''body'') waitForSelector) # Goto u tm w # post
         \<and> (\<forall>ev\<in>set pre. \<not> is_Goto ev) \<and> (\<forall>ev\<in>set post. \<not> is_Goto ev))
     \<and> waitForSelector_res e = None
     \<and> fst (normalize_url bi url) = Resolved u
     \<and> tm = default_param (JNum (Fin 70000)) timeout
     \<and> w = [''networkidle0'', ''domcontentloaded'']"
proof
  define G where "G = snd (generatePdf bi e url timeout requests cookies waitForSelector pdfOptions)"
  define tm' where "tm' = default_param (JNum (Fin 70000)) timeout"
  define sel where "sel = default_param (JStr ''body'') waitForSelector"
  define P where "P = prepare_page e requests cookies"
  define tail where "tail =
      (case fst (render_steps bi e url tm' requests cookies sel) of
         Resolved pdfBuffer \<Rightarrow> snd (finish_steps bi e pdfOptions pdfBuffer) | _ \<Rightarrow> [])
      @ (case fst (try_body bi e url tm' requests cookies sel pdfOptions) of
           Rejected ex \<Rightarrow> [ClosePage] | _ \<Rightarrow> [])"
  define nav where "nav = (case fst P of Resolved x \<Rightarrow> nav_trace bi e url tm' sel | _ \<Rightarrow> [])"
  define g where "g = (case goto_res e of None \<Rightarrow> [PagePdf True ''A4'' False tm'] | Some err \<Rightarrow> [])"
  assume "Goto u tm w \<in> set (snd (generatePdf bi e url timeout requests cookies waitForSelector pdfOptions))"
  then have gG: "Goto u tm w \<in> set G" by (simp add: G_def)
  have np: "newPage_res e = None"
  proof (rule ccontr)
    assume "newPage_res e \<noteq> None"
    with gG show False by (auto simp: generatePdf_def G_def)
  qed
  have tail: "\<forall>ev\<in>set tail. \<not> is_Goto ev"
    unfolding tail_def by (auto split: promise.splits dest: finish_steps_no_Goto)
  have pre: "\<forall>ev\<in>set (NewPage # snd P). \<not> is_Goto ev"
    unfolding P_def using prepare_no_Goto by auto
  have G: "G = (NewPage # snd P) @ nav @ tail"
    unfolding G_def tm'_def sel_def P_def tail_def nav_def
    using np by (simp add: generatePdf_trace try_body_trace)
  have "Goto u tm w \<in> set nav"
    by (rule in_middle [where Q = is_Goto, OF gG [unfolded G] pre tail]) simp
  then have n: "Goto u tm w \<in> set (nav_trace bi e url tm' sel)" and r: "fst P = Resolved ()"
    by (auto simp: nav_def split: promise.splits)
  from n have f: "waitForSelector_res e = None" "fst (normalize_url bi url) = Resolved u" "tm = tm'"
    "w = [''networkidle0'', ''domcontentloaded'']"
    by (auto simp: nav_trace_def split: promise.splits option.splits)
  from f have "nav_trace bi e url tm' sel = WaitForSelector sel # Goto u tm w # g"
    by (simp add: nav_trace_def g_def)
  with r have nav: "nav = WaitForSelector sel # Goto u tm w # g"
    by (simp add: nav_def)
  have gt: "\<forall>ev\<in>set (g @ tail). \<not> is_Goto ev"
    using tail by (auto simp: g_def split: option.splits)
  have "G = (NewPage # snd P) @ WaitForSelector sel # Goto u tm w # (g @ tail)"
    unfolding G nav by simp
  with pre gt have "\<exists>pre post. G = pre @ WaitForSelector sel # Goto u tm w # post
         \<and> (\<forall>ev\<in>set pre. \<not> is_Goto ev) \<and> (\<forall>ev\<in>set post. \<not> is_Goto ev)"
    by blast
  with f show "(\<exists>pre post.
         snd (generatePdf bi e url timeout requests cookies waitForSelector pdfOptions)
           = pre @ WaitForSelector (default_param (JStr ''body'') waitForSelector) # Goto u tm w # post
         \<and> (\<forall>ev\<in>set pre. \<not> is_Goto ev) \<and> (\<forall>ev\<in>set post. \<not> is_Goto ev))
     \<and> waitForSelector_res e = None
     \<and> fst (normalize_url bi url) = Resolved u
     \<and> tm = default_param (JNum (Fin 70000)) timeout
     \<and> w = [''networkidle0'', ''domcontentloaded'']"
    unfolding G_def sel_def tm'_def by simp
qed

lemma sample_run:
  "generatePdf sample_builtins ok_env (JStr ''example.com'') JUndefined None None JUndefined None =
     (Resolved [0x25, 0x50, 0x44, 0x46],
      [NewPage, WaitForSelector (JStr ''body''),
       Goto (JStr ''http://example.com'') (JNum (Fin 70000)) [''networkidle0'', ''domcontentloaded''],
       PagePdf True ''A4'' False (JNum (Fin 70000)), ClosePage])"
  by (simp add: generatePdf_def try_body_def render_steps_def prepare_page_def finish_steps_def
      close_and_return_def bind_eff_def call_def ok_env_def default_param_def normalize_url_string
      del: normalize_url.simps)

theorem C6_selector_wait_before_navigation_witness:
  "Goto (JStr ''http://example.com'') (JNum (Fin 70000)) [''networkidle0'', ''domcontentloaded'']
     \<in> set (snd (generatePdf sample_builtins ok_env (JStr ''example.com'') JUndefined None None JUndefined None))
   \<and> (\<exists>pre post.
         snd (generatePdf sample_builtins ok_env (JStr ''example.com'') JUndefined None None JUndefined None)
           = pre @ WaitForSelector (default_param (JStr ''body'') JUndefined)
               # Goto (JStr ''http://example.com'') (JNum (Fin 70000)) [''networkidle0'', ''domcontentloaded''] # post
         \<and> (\<forall>ev\<in>set pre. \<not> is_Goto ev) \<and> (\<forall>ev\<in>set post. \<not> is_Goto ev))
   \<and> waitForSelector_res ok_env = None"
proof -
  have h: "Goto (JStr ''http://example.com'') (JNum (Fin 70000)) [''networkidle0'', ''domcontentloaded'']
     \<in> set (snd (generatePdf sample_builtins ok_env (JStr ''example.com'') JUndefined None None JUndefined None))"
    by (simp add: sample_run)
  note T = C6_selector_wait_before_navigation [of _ _ _ sample_builtins ok_env "JStr ''example.com''"
      JUndefined None None JUndefined None, THEN mp, OF h]
  from h T [THEN conjunct1] T [THEN conjunct2, THEN conjunct1] show ?thesis by (intro conjI)
qed

section \<open>The router\<close>

lemma generatePdf_acquires_first:
  "\<exists>rest. snd (generatePdf bi e url timeout requests cookies waitForSelector pdfOptions) = NewPage # rest"
  by (cases "newPage_res e") (simp_all add: generatePdf_def split: prod.splits promise.splits option.splits)

text \<open>
  Claim C7. When the body of \<open>POST /generateReport\<close> has no \<open>url\<close>, the response has
  status 400 and the request leaves no trace: no page is acquired, nothing is rendered,
  no subprocess is started. A call of \<open>generatePdf\<close> would leave one, since it always
  begins by asking for a page.
\<close>

theorem C7_missing_url_is_rejected:
  "(body_url b = JUndefined \<longrightarrow>
      (\<exists>resp. fst (post_generateReport bi e b) = Some resp \<and> status resp = 400)
      \<and> snd (post_generateReport bi e b) = [])
   \<and> (\<exists>rest. snd (generatePdf bi e url timeout requests cookies waitForSelector pdfOptions) = NewPage # rest)"
  using generatePdf_acquires_first [of bi e url timeout requests cookies waitForSelector pdfOptions]
  by (simp add: post_generateReport_def)

theorem C7_missing_url_is_rejected_witness:
  "body_url empty_body = JUndefined
   \<and> (\<exists>resp. fst (post_generateReport sample_builtins ok_env empty_body) = Some resp \<and> status resp = 400)
   \<and> snd (post_generateReport sample_builtins ok_env empty_body) = []"
proof -
  have h: "body_url empty_body = JUndefined" by (simp add: empty_body_def)
  note T = C7_missing_url_is_rejected [of empty_body sample_builtins ok_env, THEN conjunct1, THEN mp, OF h]
  from h T show ?thesis by (intro conjI) simp_all
qed

lemma post_compressPdf_trace:
  "snd (post_compressPdf bi e p chunks) =
     (if concat chunks = [] then []
      else snd (compressPdfBuffer bi e (concat chunks) (JNum (parseInt10 bi p)) JUndefined))"
  by (simp add: post_compressPdf_def Let_def split: prod.splits promise.splits)

text \<open>
  Claim C8. The handler of \<open>POST /compressPdf/:dpi\<close> works on the concatenation of all
  chunks of the request body. When that is empty the response has status 400 and no
  subprocess is started; when it is not, the compression adapter is called, and what it
  writes to the subprocess is the whole body. A call of \<open>compressPdfBuffer\<close> always leaves
  a trace, since it always begins by starting the subprocess.
\<close>

theorem C8_empty_upload_is_rejected:
  "(concat chunks = [] \<longrightarrow>
      (\<exists>resp. fst (post_compressPdf bi e p chunks) = Some resp \<and> status resp = 400)
      \<and> snd (post_compressPdf bi e p chunks) = [])
   \<and> (concat chunks \<noteq> [] \<longrightarrow>
      (\<exists>args rest. snd (post_compressPdf bi e p chunks) = Spawn ''gs'' args # rest)
      \<and> (spawn_res e = None \<longrightarrow>
           (\<exists>args. snd (post_compressPdf bi e p chunks) = [Spawn ''gs'' args, StdinWrite (concat chunks), StdinEnd])))
   \<and> (\<exists>args rest. snd (compressPdfBuffer bi e buf d q) = Spawn ''gs'' args # rest)"
  by (simp add: post_compressPdf_trace compress_trace_cases) (simp add: post_compressPdf_def)

theorem C8_empty_upload_is_rejected_witness:
  "concat ([[], []] :: buffer list) = []
   \<and> (\<exists>resp. fst (post_compressPdf sample_builtins ok_env ''150'' [[], []]) = Some resp \<and> status resp = 400)
   \<and> snd (post_compressPdf sample_builtins ok_env ''150'' [[], []]) = []
   \<and> concat ([[0x25, 0x50], [0x44, 0x46]] :: buffer list) \<noteq> []
   \<and> spawn_res ok_env = None
   \<and> (\<exists>args. snd (post_compressPdf sample_builtins ok_env ''150'' [[0x25, 0x50], [0x44, 0x46]])
         = [Spawn ''gs'' args, StdinWrite (concat [[0x25, 0x50], [0x44, 0x46]]), StdinEnd])"
proof -
  have h1: "concat ([[], []] :: buffer list) = []" by simp
  have h2: "concat ([[0x25, 0x50], [0x44, 0x46]] :: buffer list) \<noteq> []" by simp
  have h3: "spawn_res ok_env = None" by (simp add: ok_env_def)
  note T1 = C8_empty_upload_is_rejected [of "[[], []]" sample_builtins ok_env "''150''", THEN conjunct1, THEN mp, OF h1]
  note T2 = C8_empty_upload_is_rejected [of "[[0x25, 0x50], [0x44, 0x46]]" sample_builtins ok_env "''150''",
      THEN conjunct2, THEN conjunct1, THEN mp, OF h2, THEN conjunct2, THEN mp, OF h3]
  from h1 h2 h3 T1 T2 show ?thesis by (intro conjI) simp_all
qed




section \<open>Compression on request\<close>





end
